theory Spec2Isabelle
  imports Main
begin

section \<open>The bank of banco.py and main.py\<close>

text \<open>
  Both source files hold the same three classes of the core, line for line:
  the entity \<^verbatim>\<open>Cuenta\<close>, the use case \<^verbatim>\<open>CasoDeUsoCuenta\<close> and the SQLite adapter
  \<^verbatim>\<open>RepositorioCuentaSQLite\<close>. One embedding serves both.

  Modelling decisions:
  \<^item> \<^verbatim>\<open>saldo\<close> and \<^verbatim>\<open>monto\<close> are Python floats, that is IEEE 754 doubles: finite
    numbers, the two infinities and NaN, with a sum and a difference that round to the
    nearest double. They are modelled as such (type \<open>pyfloat\<close>).
  \<^item> The failures of the entity and of the fetch are \<^verbatim>\<open>raise ValueError(msg)\<close>; the
    three messages tell the error kinds apart. The save can fail with
    \<^verbatim>\<open>sqlite3.IntegrityError\<close>, when the balance is NaN: the driver binds NaN as NULL and
    the column is \<^verbatim>\<open>NOT NULL\<close>. Other failures of the driver (I/O, locking) are outside
    the model.
  \<^item> A method that mutates \<^verbatim>\<open>self\<close> takes the object and returns the outcome
    (\<open>Inl\<close> the exception, \<open>Inr ()\<close> for a normal return) paired with the object as the
    method leaves it, so that what a raising call did to the object is visible.
  \<^item> The table \<^verbatim>\<open>cuentas (id_cuenta TEXT PRIMARY KEY, saldo REAL NOT NULL)\<close> is a
    partial map from the key to the balance.
\<close>

subsection \<open>Python floats\<close>

text \<open>
  Every finite double is a whole multiple of the smallest positive double,
  \<^verbatim>\<open>2**-1074\<close>, called a unit here. \<open>Finite z\<close> is the number of \<open>z\<close> units, so that
  sums, differences and comparisons of finite doubles are those of integers, with no
  rounding but the one IEEE 754 prescribes. The type has values that are no doubles
  (too many significant bits); \<open>is_double\<close> tells the doubles, and what is proved for
  every value of the type holds for every double. The two zeros are one value, as they
  are for \<^verbatim>\<open>==\<close>, \<^verbatim>\<open><=\<close> and \<^verbatim>\<open>>\<close> (and SQLite reads \<^verbatim>\<open>-0.0\<close> back as \<^verbatim>\<open>0.0\<close>); all NaNs
  are one value.
\<close>

datatype pyfloat = Finite int | PInf | NInf | NaN

text \<open>The number of bits of a natural number (Python's \<^verbatim>\<open>int.bit_length\<close>).\<close>

fun bit_length :: "nat \<Rightarrow> nat" where
  "bit_length n = (if n = 0 then 0 else Suc (bit_length (n div 2)))"

declare bit_length.simps [simp del]

text \<open>
  \<open>round_at k n\<close> is the multiple of \<open>2 ^ k\<close> nearest to \<open>n\<close>; of two equally near, the
  one whose quotient by \<open>2 ^ k\<close> is even. \<open>round_units n\<close> keeps the 53 leading bits of
  \<open>n\<close>, the precision of a double, rounding to nearest, ties to even. A number of at
  most 53 bits is kept as it is: these are the subnormal doubles and the first binade
  of the normal ones.
\<close>

definition round_at :: "nat \<Rightarrow> nat \<Rightarrow> nat" where
  "round_at k n =
     (let q = n div 2 ^ k; r = n mod 2 ^ k
      in (if 2 * r < 2 ^ k \<or> (2 * r = 2 ^ k \<and> even q) then q else q + 1) * 2 ^ k)"

definition round_units :: "nat \<Rightarrow> nat" where
  "round_units n = round_at (bit_length n - 53) n"

text \<open>
  The largest double is \<^verbatim>\<open>(2**53 - 1) * 2**971\<close>; a rounded magnitude of \<^verbatim>\<open>2**1024\<close>,
  that is \<open>2 ^ 2098\<close> units, or more is an overflow, and the result is the infinity of
  that sign. Python raises nothing on the overflow of \<^verbatim>\<open>+\<close> and \<^verbatim>\<open>-\<close> of floats.
\<close>

definition overflow_units :: nat where
  "overflow_units = 2 ^ 2098"

definition make_float :: "int \<Rightarrow> pyfloat" where
  "make_float z =
     (let m = round_units (nat \<bar>z\<bar>)
      in if overflow_units \<le> m then (if z < 0 then NInf else PInf)
         else Finite (if z < 0 then - int m else int m))"

text \<open>The values of the type that are doubles: at most 53 significant bits, below the overflow.\<close>

definition representable :: "nat \<Rightarrow> bool" where
  "representable n = (n < overflow_units \<and> 2 ^ (bit_length n - 53) dvd n)"

fun is_double :: "pyfloat \<Rightarrow> bool" where
  "is_double (Finite z) = representable (nat \<bar>z\<bar>)"
| "is_double x = True"

text \<open>
  The number 1.0 in units, and the double of a whole number \<open>k\<close> (a double when
  \<open>k\<close> has at most 53 significant bits): \<open>whole 100\<close> is \<^verbatim>\<open>100.0\<close>.
\<close>

definition one_units :: nat where
  "one_units = 2 ^ 1074"

definition whole :: "int \<Rightarrow> pyfloat" where
  "whole k = Finite (k * int one_units)"

text \<open>\<^verbatim>\<open>x + y\<close>, \<^verbatim>\<open>-y\<close> and \<^verbatim>\<open>x - y\<close> on floats.\<close>

fun fadd :: "pyfloat \<Rightarrow> pyfloat \<Rightarrow> pyfloat" where
  "fadd NaN y = NaN"
| "fadd x NaN = NaN"
| "fadd PInf NInf = NaN"
| "fadd NInf PInf = NaN"
| "fadd PInf y = PInf"
| "fadd NInf y = NInf"
| "fadd x PInf = PInf"
| "fadd x NInf = NInf"
| "fadd (Finite a) (Finite b) = make_float (a + b)"

fun fneg :: "pyfloat \<Rightarrow> pyfloat" where
  "fneg (Finite a) = Finite (- a)"
| "fneg PInf = NInf"
| "fneg NInf = PInf"
| "fneg NaN = NaN"

definition fsub :: "pyfloat \<Rightarrow> pyfloat \<Rightarrow> pyfloat" where
  "fsub x y = fadd x (fneg y)"

text \<open>\<^verbatim>\<open>x <= y\<close> and \<^verbatim>\<open>x < y\<close> on floats: false as soon as one side is NaN.\<close>

fun fle :: "pyfloat \<Rightarrow> pyfloat \<Rightarrow> bool" where
  "fle NaN y = False"
| "fle x NaN = False"
| "fle NInf y = True"
| "fle x PInf = True"
| "fle PInf y = False"
| "fle x NInf = False"
| "fle (Finite a) (Finite b) = (a \<le> b)"

fun flt :: "pyfloat \<Rightarrow> pyfloat \<Rightarrow> bool" where
  "flt NaN y = False"
| "flt x NaN = False"
| "flt PInf y = False"
| "flt x NInf = False"
| "flt NInf y = True"
| "flt x PInf = True"
| "flt (Finite a) (Finite b) = (a < b)"

subsection \<open>Exceptions\<close>

datatype error = ValueError string | IntegrityError string

text \<open>The error kinds the specification names, as the exceptions the code raises.\<close>

abbreviation InvalidAmount :: error where
  "InvalidAmount \<equiv> ValueError ''El monto debe ser mayor a 0''"

abbreviation InsufficientFunds :: error where
  "InsufficientFunds \<equiv> ValueError ''Fondos insuficientes''"

abbreviation AccountNotFound :: error where
  "AccountNotFound \<equiv> ValueError ''Cuenta no encontrada''"

abbreviation NotNullFailed :: error where
  "NotNullFailed \<equiv> IntegrityError ''NOT NULL constraint failed: cuentas.saldo''"

subsection \<open>The entity Cuenta\<close>

record Cuenta =
  id_cuenta :: string
  saldo :: pyfloat

text \<open>
  \<^verbatim>\<open>def __init__(self, id_cuenta: str, saldo: float = 0.0)\<close>: two assignments, no check,
  no raise. The default argument is \<open>Cuenta_init_default\<close>.
\<close>

definition Cuenta_init :: "string \<Rightarrow> pyfloat \<Rightarrow> Cuenta" where
  "Cuenta_init i s = \<lparr>id_cuenta = i, saldo = s\<rparr>"

definition Cuenta_init_default :: "string \<Rightarrow> Cuenta" where
  "Cuenta_init_default i = Cuenta_init i (Finite 0)"

text \<open>
  \<^verbatim>\<open>
  def depositar(self, monto):
      if monto <= 0:
          raise ValueError("El monto debe ser mayor a 0")
      self.saldo += monto
  \<close>
\<close>

definition Cuenta_depositar :: "Cuenta \<Rightarrow> pyfloat \<Rightarrow> (error + unit) \<times> Cuenta" where
  "Cuenta_depositar self monto =
     (if fle monto (Finite 0) then (Inl (ValueError ''El monto debe ser mayor a 0''), self)
      else (Inr (), self\<lparr>saldo := fadd (saldo self) monto\<rparr>))"

text \<open>
  \<^verbatim>\<open>
  def retirar(self, monto):
      if monto > self.saldo:
          raise ValueError("Fondos insuficientes")
      self.saldo -= monto
  \<close>
\<close>

definition Cuenta_retirar :: "Cuenta \<Rightarrow> pyfloat \<Rightarrow> (error + unit) \<times> Cuenta" where
  "Cuenta_retirar self monto =
     (if flt (saldo self) monto then (Inl (ValueError ''Fondos insuficientes''), self)
      else (Inr (), self\<lparr>saldo := fsub (saldo self) monto\<rparr>))"

subsection \<open>The adapter RepositorioCuentaSQLite\<close>

type_synonym tabla_cuentas = "string \<rightharpoonup> pyfloat"

text \<open>
  \<^verbatim>\<open>CREATE TABLE IF NOT EXISTS cuentas ...\<close> on a database: a new database gets the
  empty table, an existing table is left as it is. \<open>None\<close> is the database without
  the table.
\<close>

definition crear_tabla :: "tabla_cuentas option \<Rightarrow> tabla_cuentas" where
  "crear_tabla bd = (case bd of None \<Rightarrow> Map.empty | Some t \<Rightarrow> t)"

text \<open>
  \<^verbatim>\<open>
  def obtener_por_id(self, id_cuenta):
      cursor = self.conn.execute('SELECT * FROM cuentas WHERE id_cuenta = ?', (id_cuenta,))
      fila = cursor.fetchone()
      if fila is None:
          raise ValueError("Cuenta no encontrada")
      return Cuenta(id_cuenta=fila[0], saldo=fila[1])
  \<close>
  The row selected by the key \<open>i\<close> is \<open>(i, s)\<close> with \<open>s\<close> the stored balance. The
  query writes nothing, so the table is not returned.
\<close>

definition obtener_por_id :: "tabla_cuentas \<Rightarrow> string \<Rightarrow> error + Cuenta" where
  "obtener_por_id t i =
     (case t i of
        None \<Rightarrow> Inl (ValueError ''Cuenta no encontrada'')
      | Some s \<Rightarrow> Inr (Cuenta_init i s))"

text \<open>
  \<^verbatim>\<open>
  def guardar(self, cuenta):
      with self.conn:
          self.conn.execute('INSERT OR REPLACE INTO cuentas (id_cuenta, saldo) VALUES (?, ?)',
                            (cuenta.id_cuenta, cuenta.saldo))
  \<close>
  A balance that is a number, finite or infinite, is written: the row of the primary
  key is replaced, or created when there is none. A NaN balance reaches SQLite as NULL;
  the column is \<^verbatim>\<open>NOT NULL\<close> and has no default, so the statement is aborted, the
  \<^verbatim>\<open>with\<close> block rolls back and \<^verbatim>\<open>sqlite3.IntegrityError\<close> comes out, the table as it was.
\<close>

definition guardar :: "tabla_cuentas \<Rightarrow> Cuenta \<Rightarrow> (error + unit) \<times> tabla_cuentas" where
  "guardar t cuenta =
     (if saldo cuenta = NaN
      then (Inl (IntegrityError ''NOT NULL constraint failed: cuentas.saldo''), t)
      else (Inr (), t(id_cuenta cuenta \<mapsto> saldo cuenta)))"

subsection \<open>The use case CasoDeUsoCuenta\<close>

text \<open>
  \<^verbatim>\<open>
  def depositar(self, id_cuenta, monto):
      cuenta = self.repositorio_cuentas.obtener_por_id(id_cuenta)
      cuenta.depositar(monto)
      self.repositorio_cuentas.guardar(cuenta)
  \<close>
  The state is the table behind the repository. An exception of the first or the
  second call leaves the method at once; the table is then as it was on entry, the
  fetched \<^verbatim>\<open>cuenta\<close> being a local object. The outcome of the third call is the
  outcome of the method.
\<close>

definition CasoDeUsoCuenta_depositar ::
    "tabla_cuentas \<Rightarrow> string \<Rightarrow> pyfloat \<Rightarrow> (error + unit) \<times> tabla_cuentas" where
  "CasoDeUsoCuenta_depositar t i monto =
     (case obtener_por_id t i of
        Inl e \<Rightarrow> (Inl e, t)
      | Inr cuenta \<Rightarrow>
          (case Cuenta_depositar cuenta monto of
             (Inl e, _) \<Rightarrow> (Inl e, t)
           | (Inr _, cuenta') \<Rightarrow> guardar t cuenta'))"

text \<open>
  \<^verbatim>\<open>
  def retirar(self, id_cuenta, monto):
      cuenta = self.repositorio_cuentas.obtener_por_id(id_cuenta)
      cuenta.retirar(monto)
      self.repositorio_cuentas.guardar(cuenta)
  \<close>
\<close>

definition CasoDeUsoCuenta_retirar ::
    "tabla_cuentas \<Rightarrow> string \<Rightarrow> pyfloat \<Rightarrow> (error + unit) \<times> tabla_cuentas" where
  "CasoDeUsoCuenta_retirar t i monto =
     (case obtener_por_id t i of
        Inl e \<Rightarrow> (Inl e, t)
      | Inr cuenta \<Rightarrow>
          (case Cuenta_retirar cuenta monto of
             (Inl e, _) \<Rightarrow> (Inl e, t)
           | (Inr _, cuenta') \<Rightarrow> guardar t cuenta'))"

subsection \<open>The balance invariant\<close>

text \<open>A table all of whose rows hold a balance \<open>s\<close> with \<^verbatim>\<open>s >= 0\<close>.\<close>

definition tabla_no_negativa :: "tabla_cuentas \<Rightarrow> bool" where
  "tabla_no_negativa t = (\<forall>i s. t i = Some s \<longrightarrow> fle (Finite 0) s)"

section \<open>Facts about the floats\<close>

subsection \<open>Bit length\<close>

lemma bit_length_0 [simp]: "bit_length 0 = 0"
  by (simp add: bit_length.simps)

lemma bit_length_pos: "0 < n \<Longrightarrow> 0 < bit_length n"
  by (subst bit_length.simps) simp

lemma bit_length_bounds: "0 < n \<Longrightarrow> 2 ^ (bit_length n - 1) \<le> n \<and> n < 2 ^ bit_length n"
proof (induction n rule: bit_length.induct)
  case (1 n)
  show ?case
  proof (cases "n div 2 = 0")
    case True
    with "1.prems" have "n = Suc 0" by (simp add: div_eq_0_iff)
    then show ?thesis by (simp add: bit_length.simps [of "Suc 0"])
  next
    case False
    with "1.prems" "1.IH" have ih: "2 ^ (bit_length (n div 2) - 1) \<le> n div 2"
      "n div 2 < 2 ^ bit_length (n div 2)" by auto
    have bl: "bit_length n = Suc (bit_length (n div 2))"
      using "1.prems" by (subst bit_length.simps) simp
    have pos: "0 < bit_length (n div 2)"
      using False by (simp add: bit_length_pos)
    then obtain j where j: "bit_length (n div 2) = Suc j"
      by (cases "bit_length (n div 2)") auto
    from ih j have "2 * 2 ^ j \<le> n" "n < 2 * 2 ^ Suc j" by auto
    with bl j show ?thesis by simp
  qed
qed

lemma bit_length_le:
  assumes "n < 2 ^ j"
  shows "bit_length n \<le> j"
proof (cases "n = 0")
  case True
  then show ?thesis by simp
next
  case False
  then have "2 ^ (bit_length n - 1) \<le> n" using bit_length_bounds by simp
  from this assms have "(2::nat) ^ (bit_length n - 1) < 2 ^ j" by (rule le_less_trans)
  then have "bit_length n - 1 < j" using power_less_imp_less_exp [of 2] by simp
  then show ?thesis by simp
qed

lemma bit_length_gt:
  assumes "2 ^ j \<le> n"
  shows "j < bit_length n"
proof -
  from assms have "0 < n" by (cases "n = 0") simp_all
  then have "n < 2 ^ bit_length n" using bit_length_bounds by simp
  with assms have "(2::nat) ^ j < 2 ^ bit_length n" by (rule le_less_trans)
  then show ?thesis using power_less_imp_less_exp [of 2] by simp
qed

lemma bit_length_eqI: "2 ^ k \<le> n \<Longrightarrow> n < 2 ^ Suc k \<Longrightarrow> bit_length n = Suc k"
  using bit_length_le [of n "Suc k"] bit_length_gt [of k n] by simp

lemma bit_length_mono:
  assumes "a \<le> b"
  shows "bit_length a \<le> bit_length b"
proof (cases "b = 0")
  case True
  with assms show ?thesis by simp
next
  case False
  then have "b < 2 ^ bit_length b" using bit_length_bounds by simp
  with assms have "a < 2 ^ bit_length b" by simp
  then show ?thesis by (rule bit_length_le)
qed

subsection \<open>Rounding\<close>

lemma round_at_lower: "(n div 2 ^ k) * 2 ^ k \<le> round_at k n"
  by (simp add: round_at_def Let_def)

lemma round_at_upper: "round_at k n \<le> (n div 2 ^ k + 1) * 2 ^ k"
  by (simp add: round_at_def Let_def)

lemma round_at_dvd: "2 ^ k dvd n \<Longrightarrow> round_at k n = n"
  by (simp add: round_at_def Let_def)

lemma round_at_mono:
  assumes "a \<le> b"
  shows "round_at k a \<le> round_at k b"
proof -
  let ?p = "2 ^ k :: nat"
  have q: "a div ?p \<le> b div ?p" using assms by (rule div_le_mono)
  show ?thesis
  proof (cases "a div ?p = b div ?p")
    case True
    have "a = (a div ?p) * ?p + a mod ?p" "b = (b div ?p) * ?p + b mod ?p"
      by (rule div_mult_mod_eq [symmetric])+
    with assms True have r: "a mod ?p \<le> b mod ?p" by (metis add_le_cancel_left)
    with True show ?thesis by (auto simp: round_at_def Let_def)
  next
    case False
    with q have "a div ?p + 1 \<le> b div ?p" by simp
    then have "(a div ?p + 1) * ?p \<le> (b div ?p) * ?p" by (rule mult_le_mono1)
    with round_at_upper [of k a] round_at_lower [of b k] show ?thesis by linarith
  qed
qed

lemma round_units_0 [simp]: "round_units 0 = 0"
  by (simp add: round_units_def round_at_def)

text \<open>A number that has at most 53 significant bits is not changed by the rounding.\<close>

lemma round_units_fix: "2 ^ (bit_length n - 53) dvd n \<Longrightarrow> round_units n = n"
  by (simp add: round_units_def round_at_dvd)

text \<open>The rounding is monotone, also across the binades.\<close>

lemma round_units_mono:
  assumes "a \<le> b"
  shows "round_units a \<le> round_units b"
proof -
  define ka where "ka = bit_length a - 53"
  define kb where "kb = bit_length b - 53"
  have k: "ka \<le> kb" using bit_length_mono [OF assms] by (simp add: ka_def kb_def)
  show ?thesis
  proof (cases "ka = kb")
    case True
    with round_at_mono [OF assms, of kb] show ?thesis
      by (simp add: round_units_def ka_def kb_def)
  next
    case False
    with k have lt: "ka < kb" by simp
    then have blb: "bit_length b = kb + 53" by (simp add: kb_def)
    have bla: "bit_length a \<le> ka + 53" by (simp add: ka_def)
    have "a < 2 ^ (ka + 53)"
    proof (cases "a = 0")
      case True
      then show ?thesis by simp
    next
      case False
      then have "a < 2 ^ bit_length a" using bit_length_bounds by simp
      also have "\<dots> \<le> 2 ^ (ka + 53)" using bla by (intro power_increasing) simp_all
      finally show ?thesis .
    qed
    then have "a < 2 ^ 53 * 2 ^ ka" by (simp add: power_add mult.commute)
    then have "a div 2 ^ ka < 2 ^ 53" by (rule less_mult_imp_div_less)
    then have "a div 2 ^ ka + 1 \<le> 2 ^ 53" by simp
    then have "(a div 2 ^ ka + 1) * 2 ^ ka \<le> 2 ^ 53 * 2 ^ ka" by (rule mult_le_mono1)
    with round_at_upper [of ka a] have "round_at ka a \<le> 2 ^ 53 * 2 ^ ka"
      by (rule order_trans)
    then have ua: "round_units a \<le> 2 ^ 53 * 2 ^ ka"
      by (simp only: round_units_def ka_def)
    have bpos: "0 < b" using blb by (cases "b = 0") simp_all
    then have "2 ^ (bit_length b - 1) \<le> b" using bit_length_bounds by simp
    with blb have "2 ^ (kb + 52) \<le> b" by (simp add: add.commute)
    then have "2 ^ 52 * 2 ^ kb \<le> b" by (simp add: power_add mult.commute)
    then have "2 ^ 52 \<le> b div 2 ^ kb" by (simp add: less_eq_div_iff_mult_less_eq)
    then have "2 ^ 52 * 2 ^ kb \<le> (b div 2 ^ kb) * 2 ^ kb" by (rule mult_le_mono1)
    from this round_at_lower [of b kb] have "2 ^ 52 * 2 ^ kb \<le> round_at kb b"
      by (rule order_trans)
    then have lb: "2 ^ 52 * 2 ^ kb \<le> round_units b"
      by (simp only: round_units_def kb_def)
    from lt have "Suc ka \<le> kb" by simp
    then have "(2::nat) ^ Suc ka \<le> 2 ^ kb" by (intro power_increasing) simp_all
    then have "(2::nat) ^ 52 * 2 ^ Suc ka \<le> 2 ^ 52 * 2 ^ kb" by (rule mult_le_mono2)
    then have "(2::nat) ^ 53 * 2 ^ ka \<le> 2 ^ 52 * 2 ^ kb" by simp
    with ua have "round_units a \<le> 2 ^ 52 * 2 ^ kb" by (rule order_trans)
    from this lb show ?thesis by (rule order_trans)
  qed
qed

text \<open>The rounding goes to a nearest multiple.\<close>

lemma round_at_dist_lower: "\<bar>int (round_at k n) - int n\<bar> \<le> int (n mod 2 ^ k)"
proof -
  have n: "n = (n div 2 ^ k) * 2 ^ k + n mod 2 ^ k" by (rule div_mult_mod_eq [symmetric])
  have r: "n mod 2 ^ k < 2 ^ k" by simp
  show ?thesis
  proof (cases "2 * (n mod 2 ^ k) < 2 ^ k \<or> (2 * (n mod 2 ^ k) = 2 ^ k \<and> even (n div 2 ^ k))")
    case True
    then have "round_at k n = (n div 2 ^ k) * 2 ^ k" by (auto simp: round_at_def Let_def)
    with n show ?thesis by linarith
  next
    case False
    then have "round_at k n = (n div 2 ^ k) * 2 ^ k + 2 ^ k" by (auto simp: round_at_def Let_def)
    with n False show ?thesis by linarith
  qed
qed

lemma round_at_dist_upper:
  "\<bar>int (round_at k n) - int n\<bar> \<le> int ((n div 2 ^ k + 1) * 2 ^ k) - int n"
proof -
  have n: "n = (n div 2 ^ k) * 2 ^ k + n mod 2 ^ k" by (rule div_mult_mod_eq [symmetric])
  have r: "n mod 2 ^ k < 2 ^ k" by simp
  have u: "(n div 2 ^ k + 1) * 2 ^ k = (n div 2 ^ k) * 2 ^ k + 2 ^ k" by simp
  show ?thesis
  proof (cases "2 * (n mod 2 ^ k) < 2 ^ k \<or> (2 * (n mod 2 ^ k) = 2 ^ k \<and> even (n div 2 ^ k))")
    case True
    then have "round_at k n = (n div 2 ^ k) * 2 ^ k" by (auto simp: round_at_def Let_def)
    with n u True show ?thesis by linarith
  next
    case False
    then have "round_at k n = (n div 2 ^ k) * 2 ^ k + 2 ^ k" by (auto simp: round_at_def Let_def)
    with n u r show ?thesis by linarith
  qed
qed

lemma round_at_nearest_below:
  assumes "m \<le> (n div 2 ^ k) * 2 ^ k"
  shows "\<bar>int (round_at k n) - int n\<bar> \<le> \<bar>int m - int n\<bar>"
proof -
  have n: "n = (n div 2 ^ k) * 2 ^ k + n mod 2 ^ k" by (rule div_mult_mod_eq [symmetric])
  with assms have "int (n mod 2 ^ k) \<le> \<bar>int m - int n\<bar>" by linarith
  with round_at_dist_lower [of k n] show ?thesis by linarith
qed

lemma round_at_nearest_above:
  assumes "(n div 2 ^ k + 1) * 2 ^ k \<le> m"
  shows "\<bar>int (round_at k n) - int n\<bar> \<le> \<bar>int m - int n\<bar>"
proof -
  from assms have "int ((n div 2 ^ k + 1) * 2 ^ k) - int n \<le> \<bar>int m - int n\<bar>" by linarith
  with round_at_dist_upper [of k n] show ?thesis by linarith
qed

lemma round_at_nearest:
  assumes "2 ^ k dvd m"
  shows "\<bar>int (round_at k n) - int n\<bar> \<le> \<bar>int m - int n\<bar>"
proof -
  from assms obtain j where m: "m = j * 2 ^ k" by (auto simp: dvd_def mult.commute)
  show ?thesis
  proof (cases "j \<le> n div 2 ^ k")
    case True
    then have "j * 2 ^ k \<le> (n div 2 ^ k) * 2 ^ k" by (rule mult_le_mono1)
    then have "m \<le> (n div 2 ^ k) * 2 ^ k" by (simp only: m)
    then show ?thesis by (rule round_at_nearest_below)
  next
    case False
    then have "n div 2 ^ k + 1 \<le> j" by simp
    then have "(n div 2 ^ k + 1) * 2 ^ k \<le> j * 2 ^ k" by (rule mult_le_mono1)
    then have "(n div 2 ^ k + 1) * 2 ^ k \<le> m" by (simp only: m)
    then show ?thesis by (rule round_at_nearest_above)
  qed
qed

text \<open>No number of at most 53 significant bits is nearer to \<open>n\<close> than \<open>round_units n\<close>.\<close>

lemma round_units_nearest:
  assumes "2 ^ (bit_length m - 53) dvd m"
  shows "\<bar>int (round_units n) - int n\<bar> \<le> \<bar>int m - int n\<bar>"
proof -
  define k where "k = bit_length n - 53"
  show ?thesis
  proof (cases "k \<le> bit_length m - 53")
    case True
    then have "(2::nat) ^ k dvd 2 ^ (bit_length m - 53)" by (rule le_imp_power_dvd)
    from this assms have "2 ^ k dvd m" by (rule dvd_trans)
    then show ?thesis unfolding round_units_def k_def [symmetric] by (rule round_at_nearest)
  next
    case False
    then have lt: "bit_length m < bit_length n" and kpos: "0 < k" by (simp_all add: k_def)
    then have npos: "0 < n" by (cases "n = 0") simp_all
    have "m < 2 ^ bit_length m"
      by (cases "m = 0") (simp_all add: bit_length_bounds)
    also have "\<dots> \<le> 2 ^ (bit_length n - 1)" using lt by (intro power_increasing) simp_all
    finally have m: "m < 2 ^ (bit_length n - 1)" .
    have le: "2 ^ (bit_length n - 1) \<le> n" using npos bit_length_bounds by simp
    have "k \<le> bit_length n - 1" by (simp add: k_def)
    then have "(2::nat) ^ k dvd 2 ^ (bit_length n - 1)" by (rule le_imp_power_dvd)
    then obtain c where c: "(2::nat) ^ (bit_length n - 1) = c * 2 ^ k"
      by (auto simp: dvd_def mult.commute)
    with le have "c \<le> n div 2 ^ k" by (simp add: less_eq_div_iff_mult_less_eq)
    then have "c * 2 ^ k \<le> (n div 2 ^ k) * 2 ^ k" by (rule mult_le_mono1)
    moreover from m c have "m < c * 2 ^ k" by (simp only:)
    ultimately have "m \<le> (n div 2 ^ k) * 2 ^ k" by linarith
    then show ?thesis unfolding round_units_def k_def [symmetric] by (rule round_at_nearest_below)
  qed
qed

text \<open>The rounded number has at most 53 significant bits.\<close>

lemma round_at_multiple: "2 ^ k dvd round_at k n"
  by (simp add: round_at_def Let_def)

lemma round_units_53_bits: "2 ^ (bit_length (round_units n) - 53) dvd round_units n"
proof (cases "bit_length n \<le> 53")
  case True
  then have "round_units n = n" by (simp add: round_units_def round_at_def)
  with True show ?thesis by simp
next
  case False
  define k where "k = bit_length n - 53"
  with False have bl: "bit_length n = k + 53" by simp
  have R: "round_units n = round_at k n" by (simp add: round_units_def k_def)
  from bl have "0 < n" by (cases "n = 0") simp_all
  then have "n < 2 ^ bit_length n" using bit_length_bounds by simp
  then have "n < 2 ^ 53 * 2 ^ k" by (simp add: bl power_add mult.commute)
  then have "n div 2 ^ k < 2 ^ 53" by (rule less_mult_imp_div_less)
  then have "n div 2 ^ k + 1 \<le> 2 ^ 53" by simp
  then have "(n div 2 ^ k + 1) * 2 ^ k \<le> 2 ^ 53 * 2 ^ k" by (rule mult_le_mono1)
  with round_at_upper [of k n] have up: "round_at k n \<le> 2 ^ 53 * 2 ^ k" by (rule order_trans)
  show ?thesis
  proof (cases "round_at k n = 2 ^ 53 * 2 ^ k")
    case True
    then have eq: "round_at k n = 2 ^ (k + 53)" by (simp add: power_add mult.commute)
    then have "bit_length (round_at k n) = Suc (k + 53)" by (intro bit_length_eqI) simp_all
    then have "bit_length (round_at k n) - 53 \<le> k + 53" by simp
    then have "(2::nat) ^ (bit_length (round_at k n) - 53) dvd 2 ^ (k + 53)"
      by (rule le_imp_power_dvd)
    with eq R show ?thesis by simp
  next
    case False
    with up have "round_at k n < 2 ^ 53 * 2 ^ k" by simp
    then have "round_at k n < 2 ^ (k + 53)" by (simp add: power_add mult.commute)
    then have "bit_length (round_at k n) \<le> k + 53" by (rule bit_length_le)
    then have "bit_length (round_at k n) - 53 \<le> k" by simp
    then have "(2::nat) ^ (bit_length (round_at k n) - 53) dvd 2 ^ k" by (rule le_imp_power_dvd)
    from this round_at_multiple have "2 ^ (bit_length (round_at k n) - 53) dvd round_at k n"
      by (rule dvd_trans)
    with R show ?thesis by simp
  qed
qed

subsection \<open>Doubles\<close>

lemma representableI:
  assumes "n < 2 ^ (53 + e)" "2 ^ e dvd n" "n < overflow_units"
  shows "representable n"
proof -
  from assms(1) have "bit_length n \<le> 53 + e" by (rule bit_length_le)
  then have "bit_length n - 53 \<le> e" by simp
  then have "(2::nat) ^ (bit_length n - 53) dvd 2 ^ e" by (rule le_imp_power_dvd)
  from this assms(2) have "2 ^ (bit_length n - 53) dvd n" by (rule dvd_trans)
  with assms(3) show ?thesis by (simp add: representable_def)
qed

lemma is_double_0 [simp]: "is_double (Finite 0)"
  by (simp add: representable_def overflow_units_def)

lemma make_float_fix:
  assumes "is_double (Finite z)"
  shows "make_float z = Finite z"
proof -
  from assms have lt: "nat \<bar>z\<bar> < overflow_units"
    and "2 ^ (bit_length (nat \<bar>z\<bar>) - 53) dvd nat \<bar>z\<bar>"
    by (simp_all add: representable_def)
  then have "round_units (nat \<bar>z\<bar>) = nat \<bar>z\<bar>"
    by (simp add: round_units_fix)
  with lt show ?thesis
    by (auto simp: make_float_def Let_def)
qed

lemma make_float_0 [simp]: "make_float 0 = Finite 0"
  by (rule make_float_fix) (rule is_double_0)

lemma make_float_not_NaN [simp]: "make_float z \<noteq> NaN"
  by (simp add: make_float_def Let_def)

lemma make_float_mono:
  assumes "a \<le> b"
  shows "fle (make_float a) (make_float b)"
proof -
  consider "0 \<le> a" | "a < 0" "0 \<le> b" | "b < 0" by linarith
  then show ?thesis
  proof cases
    case 1
    with assms have "nat \<bar>a\<bar> \<le> nat \<bar>b\<bar>" by simp
    then have "round_units (nat \<bar>a\<bar>) \<le> round_units (nat \<bar>b\<bar>)" by (rule round_units_mono)
    with 1 assms show ?thesis by (auto simp: make_float_def Let_def)
  next
    case 2
    then show ?thesis by (auto simp: make_float_def Let_def)
  next
    case 3
    with assms have "nat \<bar>b\<bar> \<le> nat \<bar>a\<bar>" by simp
    then have "round_units (nat \<bar>b\<bar>) \<le> round_units (nat \<bar>a\<bar>)" by (rule round_units_mono)
    with 3 assms show ?thesis by (auto simp: make_float_def Let_def)
  qed
qed

lemma make_float_ge:
  assumes "is_double (Finite x)" "x \<le> z"
  shows "fle (Finite x) (make_float z)"
  using make_float_mono [OF assms(2)] make_float_fix [OF assms(1)] by simp

lemma make_float_le:
  assumes "is_double (Finite x)" "z \<le> x"
  shows "fle (make_float z) (Finite x)"
  using make_float_mono [OF assms(2)] make_float_fix [OF assms(1)] by simp

lemma make_float_nonneg: "0 \<le> z \<Longrightarrow> fle (Finite 0) (make_float z)"
  using make_float_ge [OF is_double_0] by simp

text \<open>
  The sum of two finite floats, when finite, is a double nearest to the exact sum: no
  double is nearer.
\<close>

lemma make_float_nearest:
  assumes "make_float s = Finite p" "is_double (Finite z)"
  shows "\<bar>p - s\<bar> \<le> \<bar>z - s\<bar>"
proof -
  from assms(2) have z: "2 ^ (bit_length (nat \<bar>z\<bar>) - 53) dvd nat \<bar>z\<bar>"
    by (simp add: representable_def)
  have near: "\<bar>int (round_units (nat \<bar>s\<bar>)) - \<bar>s\<bar>\<bar> \<le> \<bar>\<bar>z\<bar> - \<bar>s\<bar>\<bar>"
    using round_units_nearest [OF z, of "nat \<bar>s\<bar>"] by simp
  from assms(1) have p: "p = (if s < 0 then - int (round_units (nat \<bar>s\<bar>)) else int (round_units (nat \<bar>s\<bar>)))"
    by (auto simp: make_float_def Let_def split: if_splits)
  have tri: "\<bar>\<bar>z\<bar> - \<bar>s\<bar>\<bar> \<le> \<bar>z - s\<bar>" by linarith
  show ?thesis
  proof (cases "s < 0")
    case True
    with p have "p = - int (round_units (nat \<bar>s\<bar>))" by simp
    with near tri True show ?thesis by linarith
  next
    case False
    with p have "p = int (round_units (nat \<bar>s\<bar>))" by simp
    with near tri False show ?thesis by linarith
  qed
qed

lemma fadd_nearest:
  assumes "fadd (Finite x) (Finite y) = Finite p" "is_double (Finite z)"
  shows "\<bar>p - (x + y)\<bar> \<le> \<bar>z - (x + y)\<bar>"
  using assms by (simp add: make_float_nearest)

lemma fsub_nearest:
  assumes "fsub (Finite x) (Finite y) = Finite p" "is_double (Finite z)"
  shows "\<bar>p - (x - y)\<bar> \<le> \<bar>z - (x - y)\<bar>"
  using assms make_float_nearest [of "x - y" p z] by (simp add: fsub_def)

text \<open>Sums and differences are doubles again.\<close>

lemma make_float_is_double: "is_double (make_float s)"
proof -
  have "\<not> overflow_units \<le> round_units n \<Longrightarrow> representable (round_units n)" for n
    by (simp add: representable_def round_units_53_bits)
  then show ?thesis
    by (simp add: make_float_def Let_def)
qed

lemma fadd_is_double: "is_double (fadd x y)"
  by (cases x; cases y) (simp_all add: make_float_is_double)

lemma fsub_is_double: "is_double (fsub x y)"
  by (simp add: fsub_def fadd_is_double)

subsection \<open>Whole numbers\<close>

lemma one_units_pos [simp]: "0 < one_units"
  by (simp add: one_units_def)

lemma is_double_whole:
  assumes "\<bar>k\<bar> < 2 ^ 53"
  shows "is_double (whole k)"
proof -
  have eq: "nat \<bar>k * int one_units\<bar> = nat \<bar>k\<bar> * one_units"
    by (simp add: abs_mult nat_mult_distrib)
  from assms have "nat \<bar>k\<bar> < 2 ^ 53" by simp
  then have "nat \<bar>k\<bar> * 2 ^ 1074 < 2 ^ 53 * 2 ^ 1074" by (intro mult_strict_right_mono) simp_all
  then have 1: "nat \<bar>k\<bar> * one_units < 2 ^ (53 + 1074)"
    by (simp only: one_units_def power_add)
  have 2: "2 ^ 1074 dvd nat \<bar>k\<bar> * one_units"
    by (simp only: one_units_def dvd_triv_right)
  have "(2::nat) ^ (53 + 1074) \<le> overflow_units"
    unfolding overflow_units_def by (intro power_increasing) simp_all
  with 1 have 3: "nat \<bar>k\<bar> * one_units < overflow_units" by (rule less_le_trans)
  from 1 2 3 have "representable (nat \<bar>k\<bar> * one_units)" by (rule representableI)
  with eq show ?thesis by (simp add: whole_def)
qed

lemma fadd_whole:
  assumes "\<bar>a + b\<bar> < 2 ^ 53"
  shows "fadd (whole a) (whole b) = whole (a + b)"
proof -
  from assms have "is_double (whole (a + b))" by (rule is_double_whole)
  then have "make_float ((a + b) * int one_units) = Finite ((a + b) * int one_units)"
    unfolding whole_def by (rule make_float_fix)
  then show ?thesis by (simp add: whole_def distrib_right)
qed

lemma fneg_whole: "fneg (whole b) = whole (- b)"
  by (simp add: whole_def)

lemma fsub_whole:
  assumes "\<bar>a - b\<bar> < 2 ^ 53"
  shows "fsub (whole a) (whole b) = whole (a - b)"
  using fadd_whole [of a "- b"] assms by (simp add: fsub_def fneg_whole)

lemma fle_whole: "fle (whole a) (whole b) = (a \<le> b)"
  by (simp add: whole_def)

lemma flt_whole: "flt (whole a) (whole b) = (a < b)"
  by (simp add: whole_def)

lemma whole_0: "whole 0 = Finite 0"
  by (simp add: whole_def)

lemma whole_eq_iff: "whole a = whole b \<longleftrightarrow> a = b"
  by (simp add: whole_def one_units_def)

lemma whole_not_NaN [simp]: "whole a \<noteq> NaN"
  by (simp add: whole_def)

subsection \<open>The sums this development evaluates\<close>

text \<open>
  Ties go to the even mantissa, and a sum beyond the largest double is an infinity:
  \<^verbatim>\<open>sys.float_info.max + sys.float_info.max == inf\<close>.
\<close>

lemma round_ties: "round_units (2 ^ 53 + 1) = 2 ^ 53" "round_units (2 ^ 53 + 3) = 2 ^ 53 + 4"
proof -
  have "bit_length (2 ^ 53 + 1) = Suc 53" "bit_length (2 ^ 53 + 3) = Suc 53"
    by (rule bit_length_eqI, simp, simp)+
  then show "round_units (2 ^ 53 + 1) = 2 ^ 53" "round_units (2 ^ 53 + 3) = 2 ^ 53 + 4"
    by (simp_all add: round_units_def round_at_def)
qed

lemma fadd_overflow:
  "is_double (Finite ((2 ^ 53 - 1) * 2 ^ 2045))"
  "fadd (Finite ((2 ^ 53 - 1) * 2 ^ 2045)) (Finite ((2 ^ 53 - 1) * 2 ^ 2045)) = PInf"
proof -
  show "is_double (Finite ((2 ^ 53 - 1) * 2 ^ 2045))"
    by simp (rule representableI [of _ 2045], simp_all add: overflow_units_def)
  have "bit_length (nat ((2 ^ 53 - 1) * 2 ^ 2045 + (2 ^ 53 - 1) * 2 ^ 2045)) = Suc 2098"
    by (rule bit_length_eqI) simp_all
  then show "fadd (Finite ((2 ^ 53 - 1) * 2 ^ 2045)) (Finite ((2 ^ 53 - 1) * 2 ^ 2045)) = PInf"
    by (simp add: make_float_def round_units_def round_at_def overflow_units_def)
qed

text \<open>
  \<^verbatim>\<open>1e16 + 1.0 == 1e16\<close> and \<^verbatim>\<open>1e16 - 1.0 == 1e16\<close>: at \<open>10 ^ 16\<close> the doubles are 2 apart,
  both exact results lie half way between two doubles, and of these \<open>10 ^ 16\<close> is the
  one with the even mantissa.
\<close>

lemma is_double_1e16: "is_double (whole (10 ^ 16))"
  by (simp add: whole_def one_units_def)
    (rule representableI [of _ 1090], simp_all add: overflow_units_def)

lemma fadd_1e16_1: "fadd (whole (10 ^ 16)) (whole 1) = whole (10 ^ 16)"
proof -
  have "bit_length (nat (10 ^ 16 * 2 ^ 1074 + 2 ^ 1074)) = Suc 1127"
    by (rule bit_length_eqI) simp_all
  then show ?thesis
    by (simp add: whole_def one_units_def make_float_def round_units_def round_at_def
        overflow_units_def)
qed

lemma fsub_1e16_1: "fsub (whole (10 ^ 16)) (whole 1) = whole (10 ^ 16)"
proof -
  have "bit_length (nat (10 ^ 16 * 2 ^ 1074 - 2 ^ 1074)) = Suc 1127"
    by (rule bit_length_eqI) simp_all
  then show ?thesis
    by (simp add: fsub_def whole_def one_units_def make_float_def round_units_def round_at_def
        overflow_units_def)
qed

lemma fsub_1e16_minus_1: "fsub (whole (10 ^ 16)) (whole (- 1)) = whole (10 ^ 16)"
  using fadd_1e16_1 by (simp add: fsub_def fneg_whole)

subsection \<open>Comparisons\<close>

lemma fle_refl: "x \<noteq> NaN \<Longrightarrow> fle x x"
  by (cases x) simp_all

lemma fle_trans: "fle x y \<Longrightarrow> fle y z \<Longrightarrow> fle x z"
  by (cases x; cases y; cases z) simp_all

lemma flt_not_fle: "flt x y \<Longrightarrow> \<not> fle y x"
  by (cases x; cases y) simp_all

lemma fle_not_flt: "fle x y \<Longrightarrow> \<not> flt y x"
  by (cases x; cases y) simp_all

section \<open>Facts shared by the proofs\<close>

lemma Cuenta_depositar_raise:
  "fle m (Finite 0) \<Longrightarrow> Cuenta_depositar c m = (Inl InvalidAmount, c)"
  by (simp add: Cuenta_depositar_def)

lemma Cuenta_depositar_return:
  "\<not> fle m (Finite 0) \<Longrightarrow> Cuenta_depositar c m = (Inr (), c\<lparr>saldo := fadd (saldo c) m\<rparr>)"
  by (simp add: Cuenta_depositar_def)

lemma Cuenta_retirar_raise:
  "flt (saldo c) m \<Longrightarrow> Cuenta_retirar c m = (Inl InsufficientFunds, c)"
  by (simp add: Cuenta_retirar_def)

lemma Cuenta_retirar_return:
  "\<not> flt (saldo c) m \<Longrightarrow> Cuenta_retirar c m = (Inr (), c\<lparr>saldo := fsub (saldo c) m\<rparr>)"
  by (simp add: Cuenta_retirar_def)

lemma obtener_por_id_None: "t i = None \<Longrightarrow> obtener_por_id t i = Inl AccountNotFound"
  by (simp add: obtener_por_id_def)

lemma obtener_por_id_Some:
  "t i = Some s \<Longrightarrow> obtener_por_id t i = Inr \<lparr>id_cuenta = i, saldo = s\<rparr>"
  by (simp add: obtener_por_id_def Cuenta_init_def)

lemma CasoDeUsoCuenta_depositar_cases:
  "CasoDeUsoCuenta_depositar t i m =
     (case t i of
        None \<Rightarrow> (Inl AccountNotFound, t)
      | Some b \<Rightarrow>
          if fle m (Finite 0) then (Inl InvalidAmount, t)
          else if fadd b m = NaN then (Inl NotNullFailed, t)
          else (Inr (), t(i \<mapsto> fadd b m)))"
proof (cases "t i")
  case None
  then show ?thesis
    by (simp add: CasoDeUsoCuenta_depositar_def obtener_por_id_None)
next
  case (Some b)
  then show ?thesis
    by (simp add: CasoDeUsoCuenta_depositar_def obtener_por_id_Some
        Cuenta_depositar_def guardar_def)
qed

lemma CasoDeUsoCuenta_retirar_cases:
  "CasoDeUsoCuenta_retirar t i m =
     (case t i of
        None \<Rightarrow> (Inl AccountNotFound, t)
      | Some b \<Rightarrow>
          if flt b m then (Inl InsufficientFunds, t)
          else if fsub b m = NaN then (Inl NotNullFailed, t)
          else (Inr (), t(i \<mapsto> fsub b m)))"
proof (cases "t i")
  case None
  then show ?thesis
    by (simp add: CasoDeUsoCuenta_retirar_def obtener_por_id_None)
next
  case (Some b)
  then show ?thesis
    by (simp add: CasoDeUsoCuenta_retirar_def obtener_por_id_Some
        Cuenta_retirar_def guardar_def)
qed

lemma tabla_no_negativa_upd:
  "tabla_no_negativa t \<Longrightarrow> fle (Finite 0) s \<Longrightarrow> tabla_no_negativa (t(i \<mapsto> s))"
  by (simp add: tabla_no_negativa_def)

lemma tabla_no_negativa_lookup:
  "tabla_no_negativa t \<Longrightarrow> t i = Some s \<Longrightarrow> fle (Finite 0) s"
  by (simp add: tabla_no_negativa_def)

text \<open>
  What a deposit and a withdrawal that return leave as the balance, when the balance
  was not negative: it is not negative either, but for a NaN amount and for the
  withdrawal of infinity from infinity.
\<close>

lemma fadd_no_negativo:
  assumes "fle (Finite 0) b" "m \<noteq> NaN" "\<not> fle m (Finite 0)"
  shows "fle (Finite 0) (fadd b m)"
  using assms by (cases b; cases m) (auto intro!: make_float_nonneg)

lemma fsub_no_negativo:
  assumes "fle (Finite 0) b" "m \<noteq> NaN" "\<not> flt b m" "\<not> (b = PInf \<and> m = PInf)"
  shows "fle (Finite 0) (fsub b m)"
  using assms by (cases b; cases m) (auto simp: fsub_def intro!: make_float_nonneg)

text \<open>
  The use case keeps a table of balances that are not negative in that state, for
  every identifier and every amount, NaN and the infinities among them: a failed call
  writes nothing, a NaN balance is refused by the table, and the other sums and
  differences the entity lets through are not negative.
\<close>

lemma CasoDeUsoCuenta_depositar_no_negativa:
  assumes "tabla_no_negativa t"
  shows "tabla_no_negativa (snd (CasoDeUsoCuenta_depositar t i m))"
proof (cases "t i")
  case None
  with assms show ?thesis by (simp add: CasoDeUsoCuenta_depositar_cases)
next
  case (Some b)
  with assms have b: "fle (Finite 0) b" by (rule tabla_no_negativa_lookup)
  show ?thesis
  proof (cases "fle m (Finite 0) \<or> fadd b m = NaN")
    case True
    with assms Some show ?thesis by (auto simp: CasoDeUsoCuenta_depositar_cases)
  next
    case False
    then have "m \<noteq> NaN" by (cases b; cases m) auto
    with b False have "fle (Finite 0) (fadd b m)" by (simp add: fadd_no_negativo)
    with assms Some False show ?thesis
      by (simp add: CasoDeUsoCuenta_depositar_cases tabla_no_negativa_upd)
  qed
qed

lemma CasoDeUsoCuenta_retirar_no_negativa:
  assumes "tabla_no_negativa t"
  shows "tabla_no_negativa (snd (CasoDeUsoCuenta_retirar t i m))"
proof (cases "t i")
  case None
  with assms show ?thesis by (simp add: CasoDeUsoCuenta_retirar_cases)
next
  case (Some b)
  with assms have b: "fle (Finite 0) b" by (rule tabla_no_negativa_lookup)
  show ?thesis
  proof (cases "flt b m \<or> fsub b m = NaN")
    case True
    with assms Some show ?thesis by (auto simp: CasoDeUsoCuenta_retirar_cases)
  next
    case False
    then have "m \<noteq> NaN" "\<not> (b = PInf \<and> m = PInf)"
      by (cases b; cases m; auto simp: fsub_def)+
    with b False have "fle (Finite 0) (fsub b m)" by (simp add: fsub_no_negativo)
    with assms Some False show ?thesis
      by (simp add: CasoDeUsoCuenta_retirar_cases tabla_no_negativa_upd)
  qed
qed

lemma fle_0_whole: "fle (Finite 0) (whole a) = (0 \<le> a)"
  using fle_whole [of 0 a] by (simp add: whole_0)

lemma fle_whole_0: "fle (whole a) (Finite 0) = (a \<le> 0)"
  using fle_whole [of a 0] by (simp add: whole_0)

lemma flt_0_whole: "flt (Finite 0) (whole a) = (0 < a)"
  using flt_whole [of 0 a] by (simp add: whole_0)

lemma flt_whole_0: "flt (whole a) (Finite 0) = (a < 0)"
  using flt_whole [of a 0] by (simp add: whole_0)

lemma whole_not_inf [simp]: "whole a \<noteq> PInf" "whole a \<noteq> NInf"
  by (simp_all add: whole_def)

lemma cmp_NaN [simp]: "\<not> fle x NaN" "\<not> flt x NaN"
  by (cases x; simp)+

lemma cmp_whole_inf [simp]:
  "fle (whole a) PInf" "flt (whole a) PInf" "fle NInf (whole a)" "flt NInf (whole a)"
  by (simp_all add: whole_def)

lemmas whole_cmp = fle_whole flt_whole fle_0_whole fle_whole_0 flt_0_whole flt_whole_0

lemma saldo_Cuenta_init [simp]: "saldo (Cuenta_init i s) = s"
  by (simp add: Cuenta_init_def)

lemma id_cuenta_Cuenta_init [simp]: "id_cuenta (Cuenta_init i s) = i"
  by (simp add: Cuenta_init_def)

lemma Cuenta_init_saldo_upd [simp]: "(Cuenta_init i s)\<lparr>saldo := s'\<rparr> = Cuenta_init i s'"
  by (simp add: Cuenta_init_def)

section \<open>The balance invariant across the core\<close>

text \<open>
  C1, as the code has it. With an amount that is not NaN, a deposit and a withdrawal
  keep a balance that is not negative, whether they return or raise; the one exception
  is the withdrawal of infinity from an infinite balance, about which nothing is said
  here. A raise leaves the account as it was. Saving an account whose balance is not
  negative into a table of such balances succeeds and gives such a table, and a fetch
  from such a table returns such an account. The constructor checks nothing: the new
  account has the balance it was given, so that balance is not negative only when the
  argument is not.
\<close>

theorem saldo_no_negativo_preservado:
  "(fle (Finite 0) (saldo c) \<and> m \<noteq> NaN
      \<longrightarrow> fle (Finite 0) (saldo (snd (Cuenta_depositar c m))))
   \<and> (fle (Finite 0) (saldo c) \<and> m \<noteq> NaN \<and> \<not> (saldo c = PInf \<and> m = PInf)
      \<longrightarrow> fle (Finite 0) (saldo (snd (Cuenta_retirar c m))))
   \<and> (fst (Cuenta_depositar c m) \<noteq> Inr () \<longrightarrow> snd (Cuenta_depositar c m) = c)
   \<and> (fst (Cuenta_retirar c m) \<noteq> Inr () \<longrightarrow> snd (Cuenta_retirar c m) = c)
   \<and> (tabla_no_negativa t \<and> fle (Finite 0) (saldo c)
      \<longrightarrow> fst (guardar t c) = Inr () \<and> tabla_no_negativa (snd (guardar t c)))
   \<and> (tabla_no_negativa t \<and> obtener_por_id t i = Inr c' \<longrightarrow> fle (Finite 0) (saldo c'))
   \<and> saldo (Cuenta_init i s) = s
   \<and> (fle (Finite 0) s \<longrightarrow> fle (Finite 0) (saldo (Cuenta_init i s)))"
proof -
  have dep: "fle (Finite 0) (saldo c) \<and> m \<noteq> NaN
      \<longrightarrow> fle (Finite 0) (saldo (snd (Cuenta_depositar c m)))"
    by (cases "fle m (Finite 0)")
      (simp_all add: Cuenta_depositar_raise Cuenta_depositar_return fadd_no_negativo)
  have ret: "fle (Finite 0) (saldo c) \<and> m \<noteq> NaN \<and> \<not> (saldo c = PInf \<and> m = PInf)
      \<longrightarrow> fle (Finite 0) (saldo (snd (Cuenta_retirar c m)))"
    by (cases "flt (saldo c) m")
      (simp_all add: Cuenta_retirar_raise Cuenta_retirar_return fsub_no_negativo)
  have dep_fail: "fst (Cuenta_depositar c m) \<noteq> Inr () \<longrightarrow> snd (Cuenta_depositar c m) = c"
    by (simp add: Cuenta_depositar_def)
  have ret_fail: "fst (Cuenta_retirar c m) \<noteq> Inr () \<longrightarrow> snd (Cuenta_retirar c m) = c"
    by (simp add: Cuenta_retirar_def)
  have save: "tabla_no_negativa t \<and> fle (Finite 0) (saldo c)
      \<longrightarrow> fst (guardar t c) = Inr () \<and> tabla_no_negativa (snd (guardar t c))"
    by (cases "saldo c") (simp_all add: guardar_def tabla_no_negativa_upd)
  have fetch: "tabla_no_negativa t \<and> obtener_por_id t i = Inr c' \<longrightarrow> fle (Finite 0) (saldo c')"
  proof
    assume h: "tabla_no_negativa t \<and> obtener_por_id t i = Inr c'"
    then obtain b where b: "t i = Some b" and c': "c' = Cuenta_init i b"
      by (auto simp: obtener_por_id_def split: option.splits)
    from h b have "fle (Finite 0) b" by (blast intro: tabla_no_negativa_lookup)
    with c' show "fle (Finite 0) (saldo c')" by simp
  qed
  from dep ret dep_fail ret_fail save fetch show ?thesis by simp
qed

theorem saldo_no_negativo_preservado_witness:
  "fle (Finite 0) (saldo (Cuenta_init ''12345'' (whole 100)))
   \<and> whole 50 \<noteq> NaN
   \<and> fle (Finite 0) (saldo (snd (Cuenta_depositar (Cuenta_init ''12345'' (whole 100)) (whole 50))))
   \<and> fle (Finite 0) (saldo (snd (Cuenta_retirar (Cuenta_init ''12345'' (whole 100)) (whole 50))))
   \<and> fst (Cuenta_depositar (Cuenta_init ''12345'' (whole 100)) (whole (- 5))) \<noteq> Inr ()
   \<and> snd (Cuenta_depositar (Cuenta_init ''12345'' (whole 100)) (whole (- 5)))
       = Cuenta_init ''12345'' (whole 100)
   \<and> fst (Cuenta_retirar (Cuenta_init ''12345'' (whole 100)) (whole 200)) \<noteq> Inr ()
   \<and> snd (Cuenta_retirar (Cuenta_init ''12345'' (whole 100)) (whole 200))
       = Cuenta_init ''12345'' (whole 100)
   \<and> tabla_no_negativa (Map.empty(''7'' \<mapsto> whole 3))
   \<and> fst (guardar (Map.empty(''7'' \<mapsto> whole 3)) (Cuenta_init ''12345'' (whole 100))) = Inr ()
   \<and> tabla_no_negativa
       (snd (guardar (Map.empty(''7'' \<mapsto> whole 3)) (Cuenta_init ''12345'' (whole 100))))
   \<and> obtener_por_id (Map.empty(''7'' \<mapsto> whole 3)) ''7'' = Inr (Cuenta_init ''7'' (whole 3))
   \<and> fle (Finite 0) (saldo (Cuenta_init ''7'' (whole 3)))"
proof -
  let ?c = "Cuenta_init ''12345'' (whole 100)"
  let ?t = "(Map.empty(''7'' \<mapsto> whole 3)) :: tabla_cuentas"
  have c: "fle (Finite 0) (saldo ?c)"
    by (simp add: whole_cmp)
  have t: "tabla_no_negativa ?t"
    by (simp add: tabla_no_negativa_def whole_cmp)
  have f: "obtener_por_id ?t ''7'' = Inr (Cuenta_init ''7'' (whole 3))"
    by (simp add: obtener_por_id_def)
  have d: "fst (Cuenta_depositar ?c (whole (- 5))) \<noteq> Inr ()"
    by (simp add: Cuenta_depositar_def whole_cmp)
  have r: "fst (Cuenta_retirar ?c (whole 200)) \<noteq> Inr ()"
    by (simp add: Cuenta_retirar_def whole_cmp)
  show ?thesis
    using c t f d r
      saldo_no_negativo_preservado [of ?c "whole 50" ?t "''7''" "Cuenta_init ''7'' (whole 3)" "whole 3"]
      saldo_no_negativo_preservado [of ?c "whole (- 5)" ?t "''7''" "Cuenta_init ''7'' (whole 3)" "whole 3"]
      saldo_no_negativo_preservado [of ?c "whole 200" ?t "''7''" "Cuenta_init ''7'' (whole 3)" "whole 3"]
    by simp
qed

text \<open>
  The claim as written fails at construction: \<^verbatim>\<open>Cuenta("12345", -1.0)\<close> is built
  without an error and its balance is negative.
\<close>

theorem saldo_no_negativo_counterexample:
  "\<not> fle (Finite 0) (saldo (Cuenta_init ''12345'' (whole (- 1))))"
  by (simp add: whole_cmp)

section \<open>Deposits\<close>

text \<open>
  C2, as the code has it. For every account with balance \<open>b\<close> and every amount \<open>d > 0\<close>,
  the deposit returns normally and leaves as the balance the float sum of \<open>b\<close> and \<open>d\<close>,
  which is a double, the identifier as it was. For finite \<open>b\<close> and \<open>d\<close> that sum, when
  finite, is a double nearest to the exact sum (no double is nearer): it is the exact
  sum whenever the exact sum is a double, and it is never below \<open>b\<close>.
\<close>

theorem depositar_ok:
  "flt (Finite 0) d \<Longrightarrow>
     fst (Cuenta_depositar c d) = Inr ()
     \<and> saldo (snd (Cuenta_depositar c d)) = fadd (saldo c) d
     \<and> id_cuenta (snd (Cuenta_depositar c d)) = id_cuenta c
     \<and> (saldo c = Finite x \<and> d = Finite y \<and> is_double (Finite (x + y))
          \<longrightarrow> saldo (snd (Cuenta_depositar c d)) = Finite (x + y))
     \<and> (saldo c = Finite x \<and> is_double (Finite x)
          \<longrightarrow> fle (Finite x) (saldo (snd (Cuenta_depositar c d))))
     \<and> is_double (saldo (snd (Cuenta_depositar c d)))
     \<and> (saldo c = Finite x \<and> d = Finite y \<and> saldo (snd (Cuenta_depositar c d)) = Finite p
          \<and> is_double (Finite z)
          \<longrightarrow> \<bar>p - (x + y)\<bar> \<le> \<bar>z - (x + y)\<bar>)"
proof -
  assume d: "flt (Finite 0) d"
  then have "\<not> fle d (Finite 0)" by (rule flt_not_fle)
  then have r: "Cuenta_depositar c d = (Inr (), c\<lparr>saldo := fadd (saldo c) d\<rparr>)"
    by (rule Cuenta_depositar_return)
  have 1: "fst (Cuenta_depositar c d) = Inr ()"
    and 2: "saldo (snd (Cuenta_depositar c d)) = fadd (saldo c) d"
    and 3: "id_cuenta (snd (Cuenta_depositar c d)) = id_cuenta c"
    by (simp_all add: r)
  have 4: "saldo c = Finite x \<and> d = Finite y \<and> is_double (Finite (x + y))
      \<longrightarrow> saldo (snd (Cuenta_depositar c d)) = Finite (x + y)"
    unfolding 2 by (auto simp: make_float_fix)
  have 5: "saldo c = Finite x \<and> is_double (Finite x)
      \<longrightarrow> fle (Finite x) (saldo (snd (Cuenta_depositar c d)))"
    unfolding 2 using d by (cases d) (auto intro!: make_float_ge)
  have 6: "is_double (saldo (snd (Cuenta_depositar c d)))"
    unfolding 2 by (rule fadd_is_double)
  have 7: "saldo c = Finite x \<and> d = Finite y \<and> saldo (snd (Cuenta_depositar c d)) = Finite p
      \<and> is_double (Finite z)
      \<longrightarrow> \<bar>p - (x + y)\<bar> \<le> \<bar>z - (x + y)\<bar>"
    unfolding 2 by (auto intro: fadd_nearest)
  show ?thesis by (intro conjI 1 2 3 4 5 6 7)
qed

theorem depositar_ok_witness:
  "flt (Finite 0) (whole 50)
   \<and> fst (Cuenta_depositar (Cuenta_init ''12345'' (whole 100)) (whole 50)) = Inr ()
   \<and> saldo (snd (Cuenta_depositar (Cuenta_init ''12345'' (whole 100)) (whole 50))) = whole 150
   \<and> is_double (whole 100)
   \<and> fle (whole 100) (saldo (snd (Cuenta_depositar (Cuenta_init ''12345'' (whole 100)) (whole 50))))"
proof -
  have h: "flt (Finite 0) (whole 50)"
    by (simp add: whole_cmp)
  have b: "is_double (whole 100)"
    by (rule is_double_whole) simp
  have a: "fadd (whole 100) (whole 50) = whole 150"
    using fadd_whole [of 100 50] by simp
  from h b a
    depositar_ok [OF h, of "Cuenta_init ''12345'' (whole 100)"
      "100 * int one_units" "50 * int one_units" "150 * int one_units" "100 * int one_units"]
  show ?thesis
    by (simp add: whole_cmp)
qed

text \<open>
  The claim as written, with the sum of the numbers \<open>b\<close> and \<open>d\<close>, fails:
  \<^verbatim>\<open>Cuenta("12345", 1e16).depositar(1.0)\<close> returns normally and the balance is still
  \<^verbatim>\<open>1e16\<close>, not \<open>10 ^ 16 + 1\<close>.
\<close>

theorem depositar_ok_counterexample:
  "is_double (whole (10 ^ 16)) \<and> is_double (whole 1) \<and> flt (Finite 0) (whole 1)
   \<and> Cuenta_depositar (Cuenta_init ''12345'' (whole (10 ^ 16))) (whole 1)
       = (Inr (), Cuenta_init ''12345'' (whole (10 ^ 16)))
   \<and> saldo (snd (Cuenta_depositar (Cuenta_init ''12345'' (whole (10 ^ 16))) (whole 1)))
       \<noteq> whole (10 ^ 16 + 1)"
proof -
  have 1: "is_double (whole 1)"
    by (rule is_double_whole) simp
  have r: "Cuenta_depositar (Cuenta_init ''12345'' (whole (10 ^ 16))) (whole 1)
      = (Inr (), Cuenta_init ''12345'' (whole (10 ^ 16)))"
    using fadd_1e16_1 by (simp add: Cuenta_depositar_def whole_cmp)
  from is_double_1e16 1 r show ?thesis
    by (simp add: whole_cmp whole_eq_iff)
qed

text \<open>
  C3. For every account and every amount \<open>d \<le> 0\<close>, the deposit raises the
  invalid-amount error and the account is exactly as before the call.
\<close>

theorem depositar_monto_invalido:
  "fle d (Finite 0) \<Longrightarrow> Cuenta_depositar c d = (Inl InvalidAmount, c)"
  by (simp add: Cuenta_depositar_def)

theorem depositar_monto_invalido_witness:
  "fle (whole (- 5)) (Finite 0)
   \<and> Cuenta_depositar (Cuenta_init ''12345'' (whole 100)) (whole (- 5))
       = (Inl InvalidAmount, Cuenta_init ''12345'' (whole 100))
   \<and> fle (Finite 0) (Finite 0)
   \<and> Cuenta_depositar (Cuenta_init ''12345'' (whole 100)) (Finite 0)
       = (Inl InvalidAmount, Cuenta_init ''12345'' (whole 100))
   \<and> fle NInf (Finite 0)
   \<and> Cuenta_depositar (Cuenta_init ''12345'' (whole 100)) NInf
       = (Inl InvalidAmount, Cuenta_init ''12345'' (whole 100))"
  using depositar_monto_invalido [of "whole (- 5)" "Cuenta_init ''12345'' (whole 100)"]
    depositar_monto_invalido [of "Finite 0" "Cuenta_init ''12345'' (whole 100)"]
    depositar_monto_invalido [of NInf "Cuenta_init ''12345'' (whole 100)"]
  by (simp add: whole_cmp)

section \<open>Withdrawals\<close>

text \<open>
  C4, as the code has it. For every account with balance \<open>b\<close> and every amount \<open>w\<close> with
  \<open>0 < w \<le> b\<close>, the withdrawal returns normally and leaves as the balance the float
  difference of \<open>b\<close> and \<open>w\<close>, which is a double, the identifier as it was. For a finite
  \<open>b\<close> that difference is a double nearest to the exact difference (no double is nearer):
  it is the exact difference whenever that is a double, and it lies between 0 and \<open>b\<close>.
  For an infinite \<open>b\<close> it is infinite when \<open>w\<close> is finite and NaN when \<open>w\<close> is infinite.
\<close>

theorem retirar_ok:
  "flt (Finite 0) w \<Longrightarrow> fle w (saldo c) \<Longrightarrow>
     fst (Cuenta_retirar c w) = Inr ()
     \<and> saldo (snd (Cuenta_retirar c w)) = fsub (saldo c) w
     \<and> id_cuenta (snd (Cuenta_retirar c w)) = id_cuenta c
     \<and> (saldo c = Finite x \<and> w = Finite y \<and> is_double (Finite (x - y))
          \<longrightarrow> saldo (snd (Cuenta_retirar c w)) = Finite (x - y))
     \<and> (saldo c = Finite x \<and> is_double (Finite x)
          \<longrightarrow> fle (Finite 0) (saldo (snd (Cuenta_retirar c w)))
              \<and> fle (saldo (snd (Cuenta_retirar c w))) (Finite x))
     \<and> (saldo c = PInf
          \<longrightarrow> saldo (snd (Cuenta_retirar c w)) = (if w = PInf then NaN else PInf))
     \<and> is_double (saldo (snd (Cuenta_retirar c w)))
     \<and> (saldo c = Finite x \<and> w = Finite y \<and> saldo (snd (Cuenta_retirar c w)) = Finite p
          \<and> is_double (Finite z)
          \<longrightarrow> \<bar>p - (x - y)\<bar> \<le> \<bar>z - (x - y)\<bar>)"
proof -
  assume w: "flt (Finite 0) w" and wb: "fle w (saldo c)"
  from wb have "\<not> flt (saldo c) w" by (rule fle_not_flt)
  then have r: "Cuenta_retirar c w = (Inr (), c\<lparr>saldo := fsub (saldo c) w\<rparr>)"
    by (rule Cuenta_retirar_return)
  have 1: "fst (Cuenta_retirar c w) = Inr ()"
    and 2: "saldo (snd (Cuenta_retirar c w)) = fsub (saldo c) w"
    and 3: "id_cuenta (snd (Cuenta_retirar c w)) = id_cuenta c"
    by (simp_all add: r)
  have 4: "saldo c = Finite x \<and> w = Finite y \<and> is_double (Finite (x - y))
      \<longrightarrow> saldo (snd (Cuenta_retirar c w)) = Finite (x - y)"
    unfolding 2 by (auto simp: fsub_def make_float_fix)
  have 5: "saldo c = Finite x \<and> is_double (Finite x)
      \<longrightarrow> fle (Finite 0) (saldo (snd (Cuenta_retirar c w)))
          \<and> fle (saldo (snd (Cuenta_retirar c w))) (Finite x)"
    unfolding 2 using w wb
    by (cases w) (auto simp: fsub_def intro!: make_float_nonneg make_float_le)
  have 6: "saldo c = PInf
      \<longrightarrow> saldo (snd (Cuenta_retirar c w)) = (if w = PInf then NaN else PInf)"
    unfolding 2 using w by (cases w) (auto simp: fsub_def)
  have 7: "is_double (saldo (snd (Cuenta_retirar c w)))"
    unfolding 2 by (rule fsub_is_double)
  have 8: "saldo c = Finite x \<and> w = Finite y \<and> saldo (snd (Cuenta_retirar c w)) = Finite p
      \<and> is_double (Finite z)
      \<longrightarrow> \<bar>p - (x - y)\<bar> \<le> \<bar>z - (x - y)\<bar>"
    unfolding 2 by (auto intro: fsub_nearest)
  show ?thesis by (intro conjI 1 2 3 4 5 6 7 8)
qed

theorem retirar_ok_witness:
  "flt (Finite 0) (whole 150) \<and> fle (whole 150) (saldo (Cuenta_init ''12345'' (whole 150)))
   \<and> fst (Cuenta_retirar (Cuenta_init ''12345'' (whole 150)) (whole 150)) = Inr ()
   \<and> saldo (snd (Cuenta_retirar (Cuenta_init ''12345'' (whole 150)) (whole 150))) = whole 0
   \<and> flt (Finite 0) (whole 30) \<and> fle (whole 30) (saldo (Cuenta_init ''12345'' (whole 150)))
   \<and> is_double (whole 150)
   \<and> saldo (snd (Cuenta_retirar (Cuenta_init ''12345'' (whole 150)) (whole 30))) = whole 120
   \<and> fle (saldo (snd (Cuenta_retirar (Cuenta_init ''12345'' (whole 150)) (whole 30)))) (whole 150)
   \<and> flt (Finite 0) (whole 30) \<and> fle (whole 30) (saldo (Cuenta_init ''12345'' PInf))
   \<and> saldo (snd (Cuenta_retirar (Cuenta_init ''12345'' PInf) (whole 30))) = PInf"
proof -
  let ?c = "Cuenta_init ''12345'' (whole 150)"
  have h1: "flt (Finite 0) (whole 150)" and h2: "fle (whole 150) (saldo ?c)"
    and h3: "flt (Finite 0) (whole 30)" and h4: "fle (whole 30) (saldo ?c)"
    and h5: "fle (whole 30) (saldo (Cuenta_init ''12345'' PInf))"
    by (simp_all add: whole_cmp)
  have b: "is_double (whole 150)"
    by (rule is_double_whole) simp
  have z: "fsub (whole 150) (whole 150) = whole 0" and s: "fsub (whole 150) (whole 30) = whole 120"
    using fsub_whole [of 150 150] fsub_whole [of 150 30] by simp_all
  have i: "fsub PInf (whole 30) = PInf"
    by (simp add: fsub_def whole_def)
  from h1 h2 h3 h4 h5 b z s i
    retirar_ok [OF h1 h2, of "150 * int one_units" "150 * int one_units" 0 0]
    retirar_ok [OF h3 h4, of "150 * int one_units" "30 * int one_units"
      "120 * int one_units" "150 * int one_units"]
    retirar_ok [OF h3 h5, of 0 0 0 0]
  show ?thesis
    by (simp add: whole_cmp)
qed

text \<open>
  The claim as written, with the difference of the numbers \<open>b\<close> and \<open>w\<close>, fails:
  \<^verbatim>\<open>Cuenta("12345", 1e16).retirar(1.0)\<close> returns normally and the balance is still
  \<^verbatim>\<open>1e16\<close>, not \<open>10 ^ 16 - 1\<close>; and the withdrawal of infinity from an infinite balance,
  where \<open>0 < w \<le> b\<close> holds, leaves NaN.
\<close>

theorem retirar_ok_counterexample:
  "is_double (whole (10 ^ 16)) \<and> is_double (whole 1)
   \<and> flt (Finite 0) (whole 1) \<and> fle (whole 1) (saldo (Cuenta_init ''12345'' (whole (10 ^ 16))))
   \<and> Cuenta_retirar (Cuenta_init ''12345'' (whole (10 ^ 16))) (whole 1)
       = (Inr (), Cuenta_init ''12345'' (whole (10 ^ 16)))
   \<and> saldo (snd (Cuenta_retirar (Cuenta_init ''12345'' (whole (10 ^ 16))) (whole 1)))
       \<noteq> whole (10 ^ 16 - 1)
   \<and> flt (Finite 0) PInf \<and> fle PInf (saldo (Cuenta_init ''12345'' PInf))
   \<and> Cuenta_retirar (Cuenta_init ''12345'' PInf) PInf = (Inr (), Cuenta_init ''12345'' NaN)"
proof -
  have 1: "is_double (whole 1)"
    by (rule is_double_whole) simp
  have r: "Cuenta_retirar (Cuenta_init ''12345'' (whole (10 ^ 16))) (whole 1)
      = (Inr (), Cuenta_init ''12345'' (whole (10 ^ 16)))"
    using fsub_1e16_1 by (simp add: Cuenta_retirar_def whole_cmp)
  have i: "Cuenta_retirar (Cuenta_init ''12345'' PInf) PInf = (Inr (), Cuenta_init ''12345'' NaN)"
    by (simp add: Cuenta_retirar_def fsub_def)
  from is_double_1e16 1 r i show ?thesis
    by (simp add: whole_cmp whole_eq_iff)
qed

text \<open>
  C5. For every account with balance \<open>b\<close> and every amount \<open>w > b\<close>, the withdrawal
  raises the insufficient-funds error and the account is exactly as before the call.
\<close>

theorem retirar_fondos_insuficientes:
  "flt (saldo c) w \<Longrightarrow> Cuenta_retirar c w = (Inl InsufficientFunds, c)"
  by (simp add: Cuenta_retirar_def)

theorem retirar_fondos_insuficientes_witness:
  "flt (saldo (Cuenta_init ''12345'' (whole 150))) (whole 200)
   \<and> Cuenta_retirar (Cuenta_init ''12345'' (whole 150)) (whole 200)
       = (Inl InsufficientFunds, Cuenta_init ''12345'' (whole 150))
   \<and> flt (saldo (Cuenta_init ''12345'' (whole 150))) PInf
   \<and> Cuenta_retirar (Cuenta_init ''12345'' (whole 150)) PInf
       = (Inl InsufficientFunds, Cuenta_init ''12345'' (whole 150))"
proof -
  have h: "flt (saldo (Cuenta_init ''12345'' (whole 150))) (whole 200)"
    and i: "flt (saldo (Cuenta_init ''12345'' (whole 150))) PInf"
    by (simp_all add: whole_cmp)
  from h i retirar_fondos_insuficientes [OF h] retirar_fondos_insuficientes [OF i]
  show ?thesis
    by simp
qed

text \<open>
  C6, as the code has it. The only test of a withdrawal is \<open>w > b\<close>. So for every account
  with balance \<open>b \<ge> 0\<close> and every amount \<open>w \<le> 0\<close>, the withdrawal returns normally with
  the float difference of \<open>b\<close> and \<open>w\<close> as the balance, for finite \<open>b\<close> and \<open>w\<close> a double
  nearest to the exact difference when finite. When \<open>b\<close> is a double, the account is
  untouched for \<open>w = 0\<close>, and for \<open>w < 0\<close> the balance is never smaller than before: it is
  larger, or the same when \<open>w\<close> is lost in the rounding.
\<close>

theorem retirar_monto_no_positivo:
  "fle (Finite 0) (saldo c) \<Longrightarrow> fle w (Finite 0) \<Longrightarrow>
     fst (Cuenta_retirar c w) = Inr ()
     \<and> saldo (snd (Cuenta_retirar c w)) = fsub (saldo c) w
     \<and> (is_double (saldo c) \<and> w = Finite 0 \<longrightarrow> snd (Cuenta_retirar c w) = c)
     \<and> (is_double (saldo c) \<longrightarrow> fle (saldo c) (saldo (snd (Cuenta_retirar c w))))
     \<and> (saldo c = Finite x \<and> w = Finite y \<and> saldo (snd (Cuenta_retirar c w)) = Finite p
          \<and> is_double (Finite z)
          \<longrightarrow> \<bar>p - (x - y)\<bar> \<le> \<bar>z - (x - y)\<bar>)"
proof -
  assume b: "fle (Finite 0) (saldo c)" and w: "fle w (Finite 0)"
  from w b have "fle w (saldo c)" by (rule fle_trans)
  then have "\<not> flt (saldo c) w" by (rule fle_not_flt)
  then have r: "Cuenta_retirar c w = (Inr (), c\<lparr>saldo := fsub (saldo c) w\<rparr>)"
    by (rule Cuenta_retirar_return)
  have 1: "fst (Cuenta_retirar c w) = Inr ()"
    and 2: "saldo (snd (Cuenta_retirar c w)) = fsub (saldo c) w"
    by (simp_all add: r)
  have zero: "is_double (saldo c) \<and> w = Finite 0 \<longrightarrow> fsub (saldo c) w = saldo c"
    using b by (cases "saldo c") (auto simp: fsub_def make_float_fix)
  have 3: "is_double (saldo c) \<and> w = Finite 0 \<longrightarrow> snd (Cuenta_retirar c w) = c"
  proof
    assume "is_double (saldo c) \<and> w = Finite 0"
    with zero have "fsub (saldo c) w = saldo c" by blast
    then show "snd (Cuenta_retirar c w) = c" by (simp add: r)
  qed
  have 4: "is_double (saldo c) \<longrightarrow> fle (saldo c) (saldo (snd (Cuenta_retirar c w)))"
    unfolding 2 using b w
    by (cases "saldo c"; cases w) (auto simp: fsub_def intro!: make_float_ge)
  have 5: "saldo c = Finite x \<and> w = Finite y \<and> saldo (snd (Cuenta_retirar c w)) = Finite p
      \<and> is_double (Finite z)
      \<longrightarrow> \<bar>p - (x - y)\<bar> \<le> \<bar>z - (x - y)\<bar>"
    unfolding 2 by (auto intro: fsub_nearest)
  show ?thesis by (intro conjI 1 2 3 4 5)
qed

theorem retirar_monto_no_positivo_witness:
  "fle (Finite 0) (saldo (Cuenta_init ''12345'' (whole 100))) \<and> fle (whole (- 30)) (Finite 0)
   \<and> is_double (saldo (Cuenta_init ''12345'' (whole 100)))
   \<and> fst (Cuenta_retirar (Cuenta_init ''12345'' (whole 100)) (whole (- 30))) = Inr ()
   \<and> saldo (snd (Cuenta_retirar (Cuenta_init ''12345'' (whole 100)) (whole (- 30)))) = whole 130
   \<and> fle (whole 100) (saldo (snd (Cuenta_retirar (Cuenta_init ''12345'' (whole 100)) (whole (- 30)))))
   \<and> fle (Finite 0) (Finite 0)
   \<and> fst (Cuenta_retirar (Cuenta_init ''12345'' (whole 100)) (Finite 0)) = Inr ()
   \<and> snd (Cuenta_retirar (Cuenta_init ''12345'' (whole 100)) (Finite 0))
       = Cuenta_init ''12345'' (whole 100)"
proof -
  let ?c = "Cuenta_init ''12345'' (whole 100)"
  have h: "fle (Finite 0) (saldo ?c)" and w: "fle (whole (- 30)) (Finite 0)"
    and z: "fle (Finite 0) (Finite 0)"
    by (simp_all add: whole_cmp)
  have b: "is_double (saldo ?c)"
    using is_double_whole [of 100] by simp
  have s: "fsub (whole 100) (whole (- 30)) = whole 130"
    using fsub_whole [of 100 "- 30"] by simp
  from h w z b s
    retirar_monto_no_positivo [OF h w, of "100 * int one_units" "- 30 * int one_units"
      "130 * int one_units" "100 * int one_units"]
    retirar_monto_no_positivo [OF h z, of 0 0 0 0]
  show ?thesis
    by (simp add: whole_cmp)
qed

text \<open>
  The claim as written fails in its last part: \<^verbatim>\<open>Cuenta("12345", 1e16).retirar(-1.0)\<close>
  returns normally and the balance is \<^verbatim>\<open>1e16\<close> as before, so a negative withdrawal does
  not always increase the balance strictly.
\<close>

theorem retirar_monto_no_positivo_counterexample:
  "fle (Finite 0) (saldo (Cuenta_init ''12345'' (whole (10 ^ 16))))
   \<and> is_double (whole (10 ^ 16)) \<and> is_double (whole (- 1))
   \<and> fle (whole (- 1)) (Finite 0) \<and> flt (whole (- 1)) (Finite 0)
   \<and> Cuenta_retirar (Cuenta_init ''12345'' (whole (10 ^ 16))) (whole (- 1))
       = (Inr (), Cuenta_init ''12345'' (whole (10 ^ 16)))
   \<and> \<not> flt (saldo (Cuenta_init ''12345'' (whole (10 ^ 16))))
         (saldo (snd (Cuenta_retirar (Cuenta_init ''12345'' (whole (10 ^ 16))) (whole (- 1)))))"
proof -
  have 1: "is_double (whole (- 1))"
    by (rule is_double_whole) simp
  have r: "Cuenta_retirar (Cuenta_init ''12345'' (whole (10 ^ 16))) (whole (- 1))
      = (Inr (), Cuenta_init ''12345'' (whole (10 ^ 16)))"
    using fsub_1e16_minus_1 by (simp add: Cuenta_retirar_def whole_cmp)
  from is_double_1e16 1 r show ?thesis
    by (simp add: whole_cmp)
qed

section \<open>The use case\<close>

text \<open>
  C7. For every identifier and amount, a deposit and a withdrawal through the use
  case fetch the account, change it and save it. With no row for the identifier the
  fetch's account-not-found error comes out; with a row, the error of the entity
  comes out (invalid amount for a deposit of \<open>m \<le> 0\<close>, insufficient funds for a
  withdrawal of more than the balance); otherwise the save is reached, and it
  overwrites the row with the new balance, or fails when the new balance is NaN.
  Whenever the call does not return normally nothing was saved: the table is the
  table on entry.
\<close>

theorem caso_de_uso_leer_modificar_guardar:
  "CasoDeUsoCuenta_depositar t i m =
     (case t i of
        None \<Rightarrow> (Inl AccountNotFound, t)
      | Some b \<Rightarrow>
          if fle m (Finite 0) then (Inl InvalidAmount, t)
          else if fadd b m = NaN then (Inl NotNullFailed, t)
          else (Inr (), t(i \<mapsto> fadd b m)))
   \<and> CasoDeUsoCuenta_retirar t i m =
     (case t i of
        None \<Rightarrow> (Inl AccountNotFound, t)
      | Some b \<Rightarrow>
          if flt b m then (Inl InsufficientFunds, t)
          else if fsub b m = NaN then (Inl NotNullFailed, t)
          else (Inr (), t(i \<mapsto> fsub b m)))
   \<and> (fst (CasoDeUsoCuenta_depositar t i m) \<noteq> Inr ()
        \<longrightarrow> snd (CasoDeUsoCuenta_depositar t i m) = t)
   \<and> (fst (CasoDeUsoCuenta_retirar t i m) \<noteq> Inr ()
        \<longrightarrow> snd (CasoDeUsoCuenta_retirar t i m) = t)"
proof -
  have dep: "fst (CasoDeUsoCuenta_depositar t i m) \<noteq> Inr ()
      \<longrightarrow> snd (CasoDeUsoCuenta_depositar t i m) = t"
    by (simp add: CasoDeUsoCuenta_depositar_cases split: option.splits)
  have ret: "fst (CasoDeUsoCuenta_retirar t i m) \<noteq> Inr ()
      \<longrightarrow> snd (CasoDeUsoCuenta_retirar t i m) = t"
    by (simp add: CasoDeUsoCuenta_retirar_cases split: option.splits)
  from dep ret show ?thesis
    using CasoDeUsoCuenta_depositar_cases [of t i m] CasoDeUsoCuenta_retirar_cases [of t i m]
    by blast
qed

theorem caso_de_uso_leer_modificar_guardar_witness:
  "CasoDeUsoCuenta_retirar (Map.empty(''12345'' \<mapsto> whole 150)) ''12345'' (whole 200)
       = (Inl InsufficientFunds, Map.empty(''12345'' \<mapsto> whole 150))
   \<and> CasoDeUsoCuenta_depositar (Map.empty(''12345'' \<mapsto> whole 150)) ''12345'' (whole (- 5))
       = (Inl InvalidAmount, Map.empty(''12345'' \<mapsto> whole 150))
   \<and> CasoDeUsoCuenta_depositar (Map.empty(''12345'' \<mapsto> whole 150)) ''99999'' (whole 50)
       = (Inl AccountNotFound, Map.empty(''12345'' \<mapsto> whole 150))
   \<and> CasoDeUsoCuenta_depositar (Map.empty(''12345'' \<mapsto> whole 150)) ''12345'' NaN
       = (Inl NotNullFailed, Map.empty(''12345'' \<mapsto> whole 150))
   \<and> CasoDeUsoCuenta_retirar (Map.empty(''12345'' \<mapsto> whole 150)) ''12345'' NaN
       = (Inl NotNullFailed, Map.empty(''12345'' \<mapsto> whole 150))
   \<and> fst (CasoDeUsoCuenta_depositar (Map.empty(''12345'' \<mapsto> whole 100)) ''12345'' (whole 50))
       = Inr ()
   \<and> snd (CasoDeUsoCuenta_depositar (Map.empty(''12345'' \<mapsto> whole 100)) ''12345'' (whole 50))
         ''12345'' = Some (whole 150)
   \<and> fst (CasoDeUsoCuenta_retirar (Map.empty(''12345'' \<mapsto> whole 150)) ''12345'' (whole 150))
       = Inr ()
   \<and> snd (CasoDeUsoCuenta_retirar (Map.empty(''12345'' \<mapsto> whole 150)) ''12345'' (whole 150))
         ''12345'' = Some (whole 0)"
proof -
  let ?t = "(Map.empty(''12345'' \<mapsto> whole 150)) :: tabla_cuentas"
  let ?u = "(Map.empty(''12345'' \<mapsto> whole 100)) :: tabla_cuentas"
  have a: "fadd (whole 100) (whole 50) = whole 150"
    using fadd_whole [of 100 50] by simp
  have s: "fsub (whole 150) (whole 150) = whole 0"
    using fsub_whole [of 150 150] by simp
  have n: "fadd (whole 150) NaN = NaN" "fsub (whole 150) NaN = NaN"
    by (simp_all add: whole_def fsub_def)
  show ?thesis
    using a s n
      caso_de_uso_leer_modificar_guardar [of ?t "''12345''" "whole 200"]
      caso_de_uso_leer_modificar_guardar [of ?t "''12345''" "whole (- 5)"]
      caso_de_uso_leer_modificar_guardar [of ?t "''99999''" "whole 50"]
      caso_de_uso_leer_modificar_guardar [of ?t "''12345''" NaN]
      caso_de_uso_leer_modificar_guardar [of ?u "''12345''" "whole 50"]
      caso_de_uso_leer_modificar_guardar [of ?t "''12345''" "whole 150"]
    by (simp add: whole_cmp)
qed

section \<open>The repository\<close>

text \<open>
  C8. For every identifier with no row in the table, the fetch raises the
  account-not-found error; it returns no account, default or other.
\<close>

theorem obtener_por_id_inexistente:
  "t i = None \<Longrightarrow>
     obtener_por_id t i = Inl AccountNotFound \<and> (\<nexists>c. obtener_por_id t i = Inr c)"
  by (simp add: obtener_por_id_None)

theorem obtener_por_id_inexistente_witness:
  "(Map.empty(''12345'' \<mapsto> whole 100)) ''99999'' = None
   \<and> obtener_por_id (Map.empty(''12345'' \<mapsto> whole 100)) ''99999'' = Inl AccountNotFound"
proof -
  have h: "(Map.empty(''12345'' \<mapsto> whole 100)) ''99999'' = None"
    by simp
  from h obtener_por_id_inexistente [of "Map.empty(''12345'' \<mapsto> whole 100)" "''99999''"]
  show ?thesis
    by simp
qed

text \<open>
  C9, as the code has it. Round trip: for every account \<open>a\<close> whose balance is not NaN
  and every table, with or without a row for the identifier of \<open>a\<close>, saving \<open>a\<close> succeeds
  and fetching its identifier then returns an account with the identifier and the
  balance of \<open>a\<close>. An account whose balance is NaN is not saved: the save raises and the
  table is as it was.
\<close>

theorem guardar_obtener_por_id:
  "(saldo a \<noteq> NaN \<longrightarrow>
      fst (guardar t a) = Inr ()
      \<and> obtener_por_id (snd (guardar t a)) (id_cuenta a) = Inr a)
   \<and> (saldo a = NaN \<longrightarrow> guardar t a = (Inl NotNullFailed, t))"
  by (simp add: obtener_por_id_def guardar_def Cuenta_init_def)

theorem guardar_obtener_por_id_witness:
  "saldo (Cuenta_init ''12345'' (whole 100)) \<noteq> NaN
   \<and> fst (guardar Map.empty (Cuenta_init ''12345'' (whole 100))) = Inr ()
   \<and> obtener_por_id (snd (guardar Map.empty (Cuenta_init ''12345'' (whole 100)))) ''12345''
       = Inr (Cuenta_init ''12345'' (whole 100))
   \<and> obtener_por_id
       (snd (guardar (Map.empty(''12345'' \<mapsto> whole 7)) (Cuenta_init ''12345'' (whole 100))))
       ''12345''
       = Inr (Cuenta_init ''12345'' (whole 100))
   \<and> saldo (Cuenta_init ''12345'' NaN) = NaN
   \<and> guardar (Map.empty(''12345'' \<mapsto> whole 7)) (Cuenta_init ''12345'' NaN)
       = (Inl NotNullFailed, Map.empty(''12345'' \<mapsto> whole 7))"
  using guardar_obtener_por_id [of "Cuenta_init ''12345'' (whole 100)" Map.empty]
    guardar_obtener_por_id
      [of "Cuenta_init ''12345'' (whole 100)" "Map.empty(''12345'' \<mapsto> whole 7)"]
    guardar_obtener_por_id [of "Cuenta_init ''12345'' NaN" "Map.empty(''12345'' \<mapsto> whole 7)"]
  by simp

text \<open>
  The claim as written, for every account, fails at a NaN balance:
  \<^verbatim>\<open>guardar(Cuenta("12345", nan))\<close> on the empty table raises, and a fetch of
  \<^verbatim>\<open>"12345"\<close> then finds no account.
\<close>

theorem guardar_obtener_por_id_counterexample:
  "guardar Map.empty (Cuenta_init ''12345'' NaN) = (Inl NotNullFailed, Map.empty)
   \<and> obtener_por_id (snd (guardar Map.empty (Cuenta_init ''12345'' NaN))) ''12345''
       = Inl AccountNotFound"
  by (simp add: guardar_def obtener_por_id_def)

text \<open>
  C10. The constructor validates nothing, and the save does not look at the sign of
  the balance: for every identifier and every float \<open>s\<close>, the constructed account has
  balance \<open>s\<close>, and saving it puts \<open>s\<close> in the table whenever \<open>s\<close> is not NaN, so for every
  negative \<open>s\<close>. At \<open>s = -1\<close> an account with a negative balance is built and persisted,
  and fetched again.
\<close>

theorem Cuenta_init_sin_validacion:
  "saldo (Cuenta_init i s) = s
   \<and> id_cuenta (Cuenta_init i s) = i
   \<and> (s \<noteq> NaN \<longrightarrow> guardar t (Cuenta_init i s) = (Inr (), t(i \<mapsto> s)))
   \<and> flt (saldo (Cuenta_init ''12345'' (whole (- 1)))) (Finite 0)
   \<and> guardar Map.empty (Cuenta_init ''12345'' (whole (- 1)))
       = (Inr (), Map.empty(''12345'' \<mapsto> whole (- 1)))
   \<and> obtener_por_id (snd (guardar Map.empty (Cuenta_init ''12345'' (whole (- 1))))) ''12345''
       = Inr (Cuenta_init ''12345'' (whole (- 1)))"
  by (simp add: guardar_def obtener_por_id_def whole_cmp)

theorem Cuenta_init_sin_validacion_witness:
  "NInf \<noteq> NaN
   \<and> flt (saldo (Cuenta_init ''12345'' NInf)) (Finite 0)
   \<and> guardar Map.empty (Cuenta_init ''12345'' NInf) = (Inr (), Map.empty(''12345'' \<mapsto> NInf))"
  using Cuenta_init_sin_validacion [of "''12345''" NInf Map.empty]
  by simp

end
